theory Spec2Isabelle
  imports Main
begin

section \<open>Data model\<close>

text \<open>
  A \<open>URI\<close> of \<open>base/common/uri\<close> has five string components; \<open>add\<close> and \<open>remove\<close>
  read only \<open>path\<close>.  The class itself is outside \<open>chatPromptAttachmentsCollection.ts\<close>, so its
  \<open>toString()\<close> (what a template literal \<^verbatim>\<open>`${uri}`\<close> calls) and the \<open>basename\<close> helper
  of \<open>base/common/resources\<close> are taken as parameters \<open>toStr\<close> and \<open>base\<close> of the
  functions that use them.
\<close>

record URI =
  scheme :: string
  authority :: string
  path :: string
  query :: string
  fragment :: string

text \<open>\<open>Pick<IPromptFileReference, 'uri' | 'isPromptFile'>\<close>: a node of a reference tree.\<close>

record ref_node =
  uri :: URI
  isPromptFile :: bool

text \<open>
  The root reference of an attachment: a node that also carries the ordered
  sequence \<open>allValidReferences\<close> of the nodes below it.
\<close>

record prompt_reference = ref_node +
  allValidReferences :: "ref_node list"

text \<open>
  \<open>IChatRequestVariableEntry\<close> as \<open>toChatVariable\<close> builds it.  The fields \<open>id\<close> and
  \<open>value\<close> are written \<open>id_var\<close> and \<open>value_var\<close>; an absent \<open>modelDescription\<close>
  (\<open>undefined\<close>) is \<open>None\<close>.
\<close>

record variable_entry =
  id_var :: string
  name :: string
  value_var :: URI
  kind :: string
  modelDescription :: "string option"


section \<open>Identifier and variable encoding\<close>

text \<open>JavaScript's \<open>String.prototype.startsWith\<close> with the default position 0.\<close>

definition startsWith :: "string \<Rightarrow> string \<Rightarrow> bool" where
  "startsWith s p = (take (length p) s = p)"

definition createPromptVariableId :: "(URI \<Rightarrow> string) \<Rightarrow> URI \<Rightarrow> bool \<Rightarrow> string" where
  "createPromptVariableId toStr u isRoot =
     (let prefix0 = ''vscode.prompt.instructions'';
          prefix1 = (if isRoot then prefix0 @ ''.root'' else prefix0)
      in prefix1 @ ''__'' @ toStr u)"

definition toChatVariable ::
  "(URI \<Rightarrow> string) \<Rightarrow> (URI \<Rightarrow> string) \<Rightarrow> 'a ref_node_scheme \<Rightarrow> bool \<Rightarrow> variable_entry" where
  "toChatVariable toStr base r isRoot =
     (let u = uri r;
          pf = isPromptFile r;
          i0 = toStr u;
          i1 = (if pf then createPromptVariableId toStr u isRoot else i0);
          nm = (if pf then ''prompt:'' @ base u else ''file:'' @ base u);
          md = (if pf then Some ''Prompt instructions file'' else None)
      in \<lparr> id_var = i1, name = nm, value_var = u, kind = ''file'', modelDescription = md \<rparr>)"

text \<open>
  Modelled from the spec: \<open>isChatRequestFileEntry\<close> is imported from
  \<open>common/chatModel\<close>, whose source is not at hand.  The spec calls the entries it
  accepts ``file-kind'' entries: those whose \<open>kind\<close> is \<open>file\<close>.
\<close>

definition isChatRequestFileEntry :: "variable_entry \<Rightarrow> bool" where
  "isChatRequestFileEntry v = (kind v = ''file'')"

definition isPromptFileChatVariable :: "variable_entry \<Rightarrow> bool" where
  "isPromptFileChatVariable v = (isChatRequestFileEntry v \<and> startsWith (name v) ''prompt:'')"


section \<open>Collaborators of the collection\<close>

text \<open>
  Objects are identified by a \<open>handle_id\<close>; the collection's map stores identifiers
  and the objects themselves live in a store, as JavaScript object references do.
\<close>

type_synonym handle_id = nat

text \<open>The three states of a JavaScript promise.\<close>

datatype promise_state = Pending | Fulfilled | Rejected

text \<open>
  The two callbacks that \<open>add\<close> hands to a handle, as data: \<open>this._onUpdate.fire\<close>
  (bound to the emitter in the constructor), and the arrow function given to
  \<open>onDispose\<close>, which closes over \<open>uri.path\<close> and \<open>instruction\<close>.
\<close>

datatype listener =
    ForwardUpdate
  | OnDisposeCallback string handle_id

text \<open>
  Modelled from the spec: \<open>ChatPromptAttachmentModel\<close> (the ``attachment handle'') is
  imported from \<open>./chatPromptAttachmentModel\<close>, whose source is not at hand.
  The spec gives its contract: a \<open>reference\<close> tree root, a settle promise
  (read through the handle's \<open>allSettled\<close> property), an update event and a disposal
  signal to which callbacks subscribe, a \<open>resolve()\<close> entry point that begins
  asynchronous work, and a disposal that runs the subscribed callbacks.
\<close>

record ChatPromptAttachmentModel =
  reference :: prompt_reference
  allSettled_promise :: promise_state
  onUpdateListeners :: "listener list"
  onDisposeListeners :: "listener list"
  disposed :: bool

text \<open>
  Every call that the collection makes on a collaborator, and every event it fires,
  is appended to a trace, so that the order of effects can be stated.
\<close>

datatype action =
    OnUpdateSubscribed handle_id
  | OnDisposeSubscribed handle_id
  | MapSet string handle_id
  | MapDeleteAndLeak string
  | MapDeleteAndDispose string
  | HandleResolve handle_id
  | HandleDispose handle_id
  | FireAdd handle_id
  | FireUpdate
  | FireRemove handle_id

text \<open>
  The state of a \<open>ChatPromptAttachmentsCollection\<close>: the \<open>attachments\<close> map as an
  association list in insertion order (a \<open>DisposableMap\<close> wraps a JavaScript \<open>Map\<close>,
  which iterates in insertion order), the object store, the next free identifier,
  and the trace.
\<close>

record collection =
  attachments :: "(string \<times> handle_id) list"
  objects :: "handle_id \<Rightarrow> ChatPromptAttachmentModel"
  next_id :: handle_id
  trace :: "action list"


subsection \<open>The owning map\<close>

text \<open>
  \<open>DisposableMap\<close> is imported from \<open>base/common/lifecycle\<close>, whose source is not at
  hand.  The spec describes it as a keyed owning set with a membership test,
  insertion under a key, iteration in insertion order, and two removal primitives:
  ``forget'' (drop the entry from bookkeeping only) and ``evict'' (dispose the handle
  and drop the entry).  Its operations follow, each from those words.
\<close>

text \<open>
  Modelled from the spec: \<open>DisposableMap.has\<close>, the membership test of the owning
  set, by key.
\<close>

definition has :: "string \<Rightarrow> (string \<times> handle_id) list \<Rightarrow> bool" where
  "has k m = (k \<in> set (map fst m))"

text \<open>
  Modelled from the spec: \<open>DisposableMap.values\<close>, the handles of the owning set in
  insertion order.
\<close>

definition values_of :: "(string \<times> handle_id) list \<Rightarrow> handle_id list" where
  "values_of m = map snd m"

text \<open>
  Modelled from the spec: the bookkeeping of \<open>DisposableMap.set\<close>, which stores a
  handle under a key: a new key goes last in insertion order, a key already there
  keeps its place (as in a JavaScript \<open>Map\<close>).
\<close>

definition store_set :: "string \<Rightarrow> handle_id \<Rightarrow> (string \<times> handle_id) list \<Rightarrow> (string \<times> handle_id) list" where
  "store_set k h m =
     (if has k m then map (\<lambda>p. if fst p = k then (k, h) else p) m else m @ [(k, h)])"

text \<open>
  Modelled from the spec: the bookkeeping shared by the two removal primitives of
  \<open>DisposableMap\<close>, dropping the entry of a key.
\<close>

definition store_delete :: "string \<Rightarrow> (string \<times> handle_id) list \<Rightarrow> (string \<times> handle_id) list" where
  "store_delete k m = filter (\<lambda>p. fst p \<noteq> k) m"

text \<open>
  Modelled from the spec: \<open>DisposableMap.set\<close> on \<open>this.attachments\<close>, ``store the
  handle under its key''.
\<close>

definition attachments_set :: "string \<Rightarrow> handle_id \<Rightarrow> collection \<Rightarrow> collection" where
  "attachments_set k h s =
     s\<lparr>attachments := store_set k h (attachments s), trace := trace s @ [MapSet k h]\<rparr>"

text \<open>
  Modelled from the spec: \<open>DisposableMap.deleteAndLeak\<close> on \<open>this.attachments\<close>, the
  ``forget'' primitive: the entry is dropped from bookkeeping and the handle is not
  disposed.
\<close>

definition deleteAndLeak :: "string \<Rightarrow> collection \<Rightarrow> collection" where
  "deleteAndLeak k s =
     s\<lparr>attachments := store_delete k (attachments s), trace := trace s @ [MapDeleteAndLeak k]\<rparr>"


subsection \<open>Emitters\<close>

text \<open>
  \<open>Emitter\<close> is imported from \<open>base/common/event\<close>, whose source is not at hand, and
  who listens to the collection is outside \<open>chatPromptAttachmentsCollection.ts\<close>.
  The spec lists the three events as what callers observe at the collection's
  boundary; firing one is recorded in the trace.
\<close>

text \<open>Modelled from the spec: \<open>Emitter.fire\<close> on \<open>this._onUpdate\<close> (no payload).\<close>

definition fire_onUpdate :: "collection \<Rightarrow> collection" where
  "fire_onUpdate s = s\<lparr>trace := trace s @ [FireUpdate]\<rparr>"

text \<open>
  Modelled from the spec: \<open>Emitter.fire\<close> on \<open>this._onAdd\<close>, with the added handle as
  payload.
\<close>

definition fire_onAdd :: "handle_id \<Rightarrow> collection \<Rightarrow> collection" where
  "fire_onAdd h s = s\<lparr>trace := trace s @ [FireAdd h]\<rparr>"

text \<open>
  Modelled from the spec: \<open>Emitter.fire\<close> on \<open>this._onRemove\<close>, with the removed
  handle as payload.
\<close>

definition fire_onRemove :: "handle_id \<Rightarrow> collection \<Rightarrow> collection" where
  "fire_onRemove h s = s\<lparr>trace := trace s @ [FireRemove h]\<rparr>"


subsection \<open>The disposal callback of \<open>add\<close>\<close>

text \<open>
  The arrow function that \<open>add\<close> passes to \<open>onDispose\<close>:
  \<open>this.attachments.deleteAndLeak(uri.path); this._onUpdate.fire();
  this._onRemove.fire(instruction)\<close>.
\<close>

definition onDisposeCallback :: "string \<Rightarrow> handle_id \<Rightarrow> collection \<Rightarrow> collection" where
  "onDisposeCallback k instruction s =
     (let s1 = deleteAndLeak k s;
          s2 = fire_onUpdate s1;
          s3 = fire_onRemove instruction s2
      in s3)"

fun run_listener :: "listener \<Rightarrow> collection \<Rightarrow> collection" where
  "run_listener ForwardUpdate s = fire_onUpdate s"
| "run_listener (OnDisposeCallback k instruction) s = onDisposeCallback k instruction s"


subsection \<open>The handle's operations\<close>

text \<open>
  Modelled from the spec: \<open>initService.createInstance(ChatPromptAttachmentModel, uri)\<close>,
  the factory that produces a handle for a URI.  The handle is a fresh object,
  with the reference tree the resolver subsystem starts it with (the parameter
  \<open>newReference\<close>), a pending settle promise and no subscriber.
\<close>

definition createInstance ::
  "(URI \<Rightarrow> prompt_reference) \<Rightarrow> URI \<Rightarrow> collection \<Rightarrow> handle_id \<times> collection" where
  "createInstance newReference u s =
     (next_id s,
      s\<lparr>objects := (objects s)(next_id s :=
           \<lparr> reference = newReference u, allSettled_promise = Pending,
             onUpdateListeners = [], onDisposeListeners = [], disposed = False \<rparr>),
        next_id := Suc (next_id s)\<rparr>)"

text \<open>
  Modelled from the spec: \<open>ChatPromptAttachmentModel.onUpdate\<close>, which subscribes a
  callback to the handle's update event.
\<close>

definition handle_onUpdate :: "handle_id \<Rightarrow> listener \<Rightarrow> collection \<Rightarrow> collection" where
  "handle_onUpdate h l s =
     s\<lparr>objects := (objects s)(h := (objects s h)
           \<lparr>onUpdateListeners := onUpdateListeners (objects s h) @ [l]\<rparr>),
       trace := trace s @ [OnUpdateSubscribed h]\<rparr>"

text \<open>
  Modelled from the spec: \<open>ChatPromptAttachmentModel.onDispose\<close>, which subscribes a
  callback to the handle's disposal signal.
\<close>

definition handle_onDispose :: "handle_id \<Rightarrow> listener \<Rightarrow> collection \<Rightarrow> collection" where
  "handle_onDispose h l s =
     s\<lparr>objects := (objects s)(h := (objects s h)
           \<lparr>onDisposeListeners := onDisposeListeners (objects s h) @ [l]\<rparr>),
       trace := trace s @ [OnDisposeSubscribed h]\<rparr>"

text \<open>
  Modelled from the spec: \<open>ChatPromptAttachmentModel.resolve\<close>, which only begins
  asynchronous work: nothing of the collection changes during the call.
\<close>

definition handle_resolve :: "handle_id \<Rightarrow> collection \<Rightarrow> collection" where
  "handle_resolve h s = s\<lparr>trace := trace s @ [HandleResolve h]\<rparr>"

text \<open>
  Modelled from the spec: \<open>ChatPromptAttachmentModel.dispose\<close>, which marks the handle
  disposed and runs the callbacks subscribed to its disposal signal, in subscription
  order.  Disposal has no guard of its own: every call of it is recorded, so a
  second disposal of the same handle would show in the trace.
\<close>

definition handle_dispose :: "handle_id \<Rightarrow> collection \<Rightarrow> collection" where
  "handle_dispose h s =
     (let s1 = s\<lparr>objects := (objects s)(h := (objects s h)\<lparr>disposed := True\<rparr>),
                 trace := trace s @ [HandleDispose h]\<rparr>
      in fold run_listener (onDisposeListeners (objects s h)) s1)"

text \<open>
  Modelled from the spec: \<open>DisposableMap.deleteAndDispose\<close> on \<open>this.attachments\<close>,
  the ``evict'' primitive: it disposes the handle stored under the key, if any, and
  drops the entry.
\<close>

definition deleteAndDispose :: "string \<Rightarrow> collection \<Rightarrow> collection" where
  "deleteAndDispose k s =
     (let s1 = s\<lparr>trace := trace s @ [MapDeleteAndDispose k]\<rparr>;
          s2 = (case map_of (attachments s1) k of
                  None \<Rightarrow> s1
                | Some h \<Rightarrow> handle_dispose h s1)
      in s2\<lparr>attachments := store_delete k (attachments s2)\<rparr>)"


section \<open>The collection's operations\<close>

subsection \<open>\<open>chatAttachments\<close>\<close>

text \<open>
  The getter's \<open>for\<close> loop over \<open>[...this.attachments.values()]\<close>, with \<open>result\<close> as
  the accumulator: two \<open>push\<close> calls per attachment.
\<close>

fun chatAttachments_loop ::
  "(URI \<Rightarrow> string) \<Rightarrow> (URI \<Rightarrow> string) \<Rightarrow> (handle_id \<Rightarrow> ChatPromptAttachmentModel) \<Rightarrow>
   handle_id list \<Rightarrow> variable_entry list \<Rightarrow> variable_entry list" where
  "chatAttachments_loop toStr base objs [] result = result"
| "chatAttachments_loop toStr base objs (attachment # rest) result =
     (let r = reference (objs attachment);
          result1 = result @ map (\<lambda>link. toChatVariable toStr base link False) (allValidReferences r);
          result2 = result1 @ [toChatVariable toStr base \<lparr> uri = uri r, isPromptFile = True \<rparr> True]
      in chatAttachments_loop toStr base objs rest result2)"

definition chatAttachments ::
  "(URI \<Rightarrow> string) \<Rightarrow> (URI \<Rightarrow> string) \<Rightarrow> collection \<Rightarrow> variable_entry list" where
  "chatAttachments toStr base s =
     chatAttachments_loop toStr base (objects s) (values_of (attachments s)) []"

text \<open>
  The view as the specification words it, for one handle: one non-root entry per
  node of \<open>allValidReferences\<close>, in that order, then one root entry for the
  top-level reference with \<open>isPromptFile\<close> forced to true.
\<close>

definition handle_entries_spec ::
  "(URI \<Rightarrow> string) \<Rightarrow> (URI \<Rightarrow> string) \<Rightarrow> prompt_reference \<Rightarrow> variable_entry list" where
  "handle_entries_spec toStr base r =
     map (\<lambda>n. toChatVariable toStr base n False) (allValidReferences r)
     @ [toChatVariable toStr base (r\<lparr>isPromptFile := True\<rparr>) True]"


subsection \<open>\<open>allSettled\<close>\<close>

text \<open>
  JavaScript's \<open>Promise.allSettled\<close> on an array of promises: pending while one of
  them is pending, fulfilled once each is fulfilled or rejected; it does not reject.
\<close>

definition Promise_allSettled :: "promise_state list \<Rightarrow> promise_state" where
  "Promise_allSettled ps = (if Pending \<in> set ps then Pending else Fulfilled)"

text \<open>
  The promise of an \<open>async\<close> function whose body is \<open>await p;\<close>: pending while \<open>p\<close>
  is, rejected if \<open>p\<close> rejects, fulfilled when \<open>p\<close> fulfils and the body ends.
\<close>

definition await_then_return :: "promise_state \<Rightarrow> promise_state" where
  "await_then_return p =
     (case p of Pending \<Rightarrow> Pending | Fulfilled \<Rightarrow> Fulfilled | Rejected \<Rightarrow> Rejected)"

text \<open>
  Modelled from the spec: the settle promise of a handle, read from its \<open>allSettled\<close>
  property (\<open>ChatPromptAttachmentModel\<close> is not at hand).  A promise is named by its
  handle, and its state at a given moment is in the handle's object.
\<close>

datatype promise = AllSettledOf handle_id

text \<open>The state of a promise in a given state of the program.\<close>

fun promise_state_in :: "collection \<Rightarrow> promise \<Rightarrow> promise_state" where
  "promise_state_in s (AllSettledOf h) = allSettled_promise (objects s h)"

text \<open>
  The call \<open>allSettled()\<close> runs synchronously up to its \<open>await\<close>: it copies
  \<open>this.attachments.values()\<close> and maps each attachment to its \<open>allSettled\<close>
  promise.  The result is the list of promises handed to \<open>Promise.allSettled\<close>.
\<close>

definition allSettled :: "collection \<Rightarrow> promise list" where
  "allSettled s =
     (let attachments0 = values_of (attachments s)
      in map (\<lambda>attachment. AllSettledOf attachment) attachments0)"

text \<open>
  The state of the promise returned by that call, observed in a later state \<open>s'\<close> of
  the program, in which the awaited promises have the states the store gives them.
\<close>

definition allSettled_outcome :: "promise list \<Rightarrow> collection \<Rightarrow> promise_state" where
  "allSettled_outcome awaited s' =
     await_then_return (Promise_allSettled (map (promise_state_in s') awaited))"


subsection \<open>\<open>add\<close> and \<open>remove\<close>\<close>

definition add ::
  "(URI \<Rightarrow> prompt_reference) \<Rightarrow> URI \<Rightarrow> collection \<Rightarrow> bool \<times> collection" where
  "add newReference u s =
     (if has (path u) (attachments s) then (True, s)
      else
        (let (instruction, s0) = createInstance newReference u s;
             s1 = handle_onUpdate instruction ForwardUpdate s0;
             s2 = handle_onDispose instruction (OnDisposeCallback (path u) instruction) s1;
             s3 = attachments_set (path u) instruction s2;
             s4 = handle_resolve instruction s3;
             s5 = fire_onAdd instruction s4;
             s6 = fire_onUpdate s5
         in (False, s6)))"

definition remove :: "URI \<Rightarrow> collection \<Rightarrow> collection" where
  "remove u s =
     (if \<not> has (path u) (attachments s) then s
      else deleteAndDispose (path u) s)"



section \<open>Reading a trace\<close>

text \<open>The handles whose disposal a trace records, in order, with repetitions.\<close>

fun disposals :: "action list \<Rightarrow> handle_id list" where
  "disposals [] = []"
| "disposals (HandleDispose h # as) = h # disposals as"
| "disposals (a # as) = disposals as"


section \<open>Example inputs\<close>

text \<open>
  Concrete URIs, a concrete string form and basename, and the scenario of the
  specification: two attached prompt files, \<open>a.prompt.md\<close> without children and
  \<open>b.prompt.md\<close> with the single non-prompt child \<open>x.md\<close>.
\<close>

definition uri_a :: URI where
  "uri_a = \<lparr> scheme = ''file'', authority = [], path = ''/a.prompt.md'', query = [], fragment = [] \<rparr>"

definition uri_b :: URI where
  "uri_b = \<lparr> scheme = ''file'', authority = [], path = ''/b.prompt.md'', query = [], fragment = [] \<rparr>"

definition uri_x :: URI where
  "uri_x = \<lparr> scheme = ''file'', authority = [], path = ''/x.md'', query = [], fragment = [] \<rparr>"


definition show_uri :: "URI \<Rightarrow> string" where
  "show_uri u = scheme u @ ''://'' @ authority u @ path u"

definition last_segment :: "URI \<Rightarrow> string" where
  "last_segment u = rev (takeWhile (\<lambda>c. c \<noteq> CHR ''/'') (rev (path u)))"

definition fresh_reference :: "URI \<Rightarrow> prompt_reference" where
  "fresh_reference u = \<lparr> uri = u, isPromptFile = True, allValidReferences = [] \<rparr>"

definition handle_a :: ChatPromptAttachmentModel where
  "handle_a =
     \<lparr> reference = \<lparr> uri = uri_a, isPromptFile = True, allValidReferences = [] \<rparr>,
       allSettled_promise = Pending,
       onUpdateListeners = [ForwardUpdate],
       onDisposeListeners = [OnDisposeCallback ''/a.prompt.md'' 0],
       disposed = False \<rparr>"

definition handle_b :: ChatPromptAttachmentModel where
  "handle_b =
     \<lparr> reference = \<lparr> uri = uri_b, isPromptFile = False,
                     allValidReferences = [\<lparr> uri = uri_x, isPromptFile = False \<rparr>] \<rparr>,
       allSettled_promise = Pending,
       onUpdateListeners = [ForwardUpdate],
       onDisposeListeners = [OnDisposeCallback ''/b.prompt.md'' 1],
       disposed = False \<rparr>"

definition scenario :: collection where
  "scenario =
     \<lparr> attachments = [(''/a.prompt.md'', 0), (''/b.prompt.md'', 1)],
       objects = (\<lambda>_. handle_a)(1 := handle_b),
       next_id = 2,
       trace = [] \<rparr>"



text \<open>
  The scenario later on: the settle promise of the first handle has rejected, that
  of the second has fulfilled; and after that, a third file has been added.
\<close>

definition scenario_settled :: collection where
  "scenario_settled =
     scenario\<lparr>objects := (\<lambda>_. handle_a\<lparr>allSettled_promise := Rejected\<rparr>)
                            (1 := handle_b\<lparr>allSettled_promise := Fulfilled\<rparr>)\<rparr>"

definition scenario_later :: collection where
  "scenario_later = snd (add fresh_reference uri_x scenario_settled)"


section \<open>Properties of the encoders\<close>

lemma startsWith_iff: "startsWith s p \<longleftrightarrow> (\<exists>rest. s = p @ rest)"
proof
  assume "startsWith s p"
  then have "s = p @ drop (length p) s"
    by (metis append_take_drop_id startsWith_def)
  then show "\<exists>rest. s = p @ rest" ..
next
  assume "\<exists>rest. s = p @ rest"
  then show "startsWith s p"
    by (auto simp: startsWith_def)
qed

subsection \<open>Strings and identifiers\<close>

text \<open>
  C3.  For every reference node and every root flag, the entry built by
  \<open>toChatVariable\<close> has as \<open>id\<close> the string form of the URI when the node is not a
  prompt file, and otherwise the prefix \<open>vscode.prompt.instructions\<close>, then \<open>.root\<close>
  exactly when the root flag is set, then \<open>__\<close>, then the string form of the URI;
  its \<open>name\<close> is \<open>prompt:\<close> or \<open>file:\<close> followed by the basename; its
  \<open>modelDescription\<close> is the fixed string \<open>Prompt instructions file\<close> for a prompt
  file and absent otherwise.  The \<open>value\<close> is the URI and the \<open>kind\<close> is \<open>file\<close>.
\<close>

theorem toChatVariable_fields:
  "id_var (toChatVariable toStr base r isRoot) =
     (if isPromptFile r
      then ''vscode.prompt.instructions'' @ (if isRoot then ''.root'' else []) @ ''__'' @ toStr (uri r)
      else toStr (uri r))
   \<and> id_var (toChatVariable toStr base r isRoot) =
     (if isPromptFile r then createPromptVariableId toStr (uri r) isRoot else toStr (uri r))
   \<and> name (toChatVariable toStr base r isRoot) =
     (if isPromptFile r then ''prompt:'' @ base (uri r) else ''file:'' @ base (uri r))
   \<and> modelDescription (toChatVariable toStr base r isRoot) =
     (if isPromptFile r then Some ''Prompt instructions file'' else None)
   \<and> value_var (toChatVariable toStr base r isRoot) = uri r
   \<and> kind (toChatVariable toStr base r isRoot) = ''file''"
  by (simp add: toChatVariable_def createPromptVariableId_def Let_def)

theorem toChatVariable_fields_witness:
  "id_var (toChatVariable show_uri last_segment \<lparr> uri = uri_a, isPromptFile = True \<rparr> True) =
     ''vscode.prompt.instructions.root__file:///a.prompt.md''
   \<and> id_var (toChatVariable show_uri last_segment \<lparr> uri = uri_a, isPromptFile = True \<rparr> False) =
     ''vscode.prompt.instructions__file:///a.prompt.md''
   \<and> name (toChatVariable show_uri last_segment \<lparr> uri = uri_a, isPromptFile = True \<rparr> True) =
     ''prompt:a.prompt.md''
   \<and> id_var (toChatVariable show_uri last_segment \<lparr> uri = uri_x, isPromptFile = False \<rparr> True) =
     ''file:///x.md''
   \<and> name (toChatVariable show_uri last_segment \<lparr> uri = uri_x, isPromptFile = False \<rparr> True) =
     ''file:x.md''
   \<and> modelDescription (toChatVariable show_uri last_segment \<lparr> uri = uri_x, isPromptFile = False \<rparr> True) =
     None"
  using toChatVariable_fields [of show_uri last_segment "\<lparr> uri = uri_a, isPromptFile = True \<rparr>" True]
        toChatVariable_fields [of show_uri last_segment "\<lparr> uri = uri_a, isPromptFile = True \<rparr>" False]
        toChatVariable_fields [of show_uri last_segment "\<lparr> uri = uri_x, isPromptFile = False \<rparr>" True]
  by (simp add: uri_a_def uri_x_def show_uri_def last_segment_def)

text \<open>
  C7.  \<open>createPromptVariableId\<close> is a function of the URI and the root flag alone
  (equal arguments give equal identifiers, and the identifier is the closed form
  below), and for every URI the root form and the non-root form differ.
\<close>

theorem createPromptVariableId_root_differs:
  "createPromptVariableId toStr u True \<noteq> createPromptVariableId toStr u False
   \<and> (u1 = u2 \<and> b1 = b2 \<longrightarrow>
        createPromptVariableId toStr u1 b1 = createPromptVariableId toStr u2 b2)
   \<and> createPromptVariableId toStr u b =
       ''vscode.prompt.instructions'' @ (if b then ''.root'' else []) @ ''__'' @ toStr u"
  by (simp add: createPromptVariableId_def)

theorem createPromptVariableId_root_differs_witness:
  "createPromptVariableId show_uri uri_a True \<noteq> createPromptVariableId show_uri uri_a False
   \<and> uri_a = uri_a
   \<and> createPromptVariableId show_uri uri_a True = ''vscode.prompt.instructions.root__file:///a.prompt.md''
   \<and> createPromptVariableId show_uri uri_a False = ''vscode.prompt.instructions__file:///a.prompt.md''"
  using createPromptVariableId_root_differs [of show_uri uri_a uri_a uri_a True True True]
        createPromptVariableId_root_differs [of show_uri uri_a uri_a uri_a True True False]
  by (simp add: uri_a_def show_uri_def)

text \<open>
  C8.  \<open>isPromptFileChatVariable\<close> holds of an entry exactly when its \<open>kind\<close> is
  \<open>file\<close> and its \<open>name\<close> begins with \<open>prompt:\<close>; it is false of every entry whose
  name begins with \<open>file:\<close>, such as \<open>file:foo.txt\<close>.
\<close>

theorem isPromptFileChatVariable_iff:
  "(isPromptFileChatVariable e \<longleftrightarrow> kind e = ''file'' \<and> (\<exists>rest. name e = ''prompt:'' @ rest))
   \<and> \<not> isPromptFileChatVariable (e\<lparr>name := ''file:'' @ rest'\<rparr>)"
  by (simp add: isPromptFileChatVariable_def isChatRequestFileEntry_def startsWith_iff)

theorem isPromptFileChatVariable_iff_witness:
  "isPromptFileChatVariable
     \<lparr> id_var = ''i'', name = ''prompt:a.prompt.md'', value_var = uri_a, kind = ''file'',
       modelDescription = None \<rparr>
   \<and> \<not> isPromptFileChatVariable
     \<lparr> id_var = ''i'', name = ''prompt:a.prompt.md'', value_var = uri_a, kind = ''directory'',
       modelDescription = None \<rparr>
   \<and> \<not> isPromptFileChatVariable
     \<lparr> id_var = ''i'', name = ''file:foo.txt'', value_var = uri_a, kind = ''file'',
       modelDescription = None \<rparr>"
  using isPromptFileChatVariable_iff
          [of "\<lparr> id_var = ''i'', name = ''prompt:a.prompt.md'', value_var = uri_a, kind = ''file'',
                 modelDescription = None \<rparr>" "''foo.txt''"]
        isPromptFileChatVariable_iff
          [of "\<lparr> id_var = ''i'', name = ''prompt:a.prompt.md'', value_var = uri_a,
                 kind = ''directory'', modelDescription = None \<rparr>" "''foo.txt''"]
  by simp

text \<open>
  C10.  Round trip of the encoders: for every reference node and every root flag,
  \<open>isPromptFileChatVariable\<close> applied to the entry that \<open>toChatVariable\<close> builds
  gives back the node's \<open>isPromptFile\<close> flag.
\<close>

theorem isPromptFileChatVariable_toChatVariable:
  "isPromptFileChatVariable (toChatVariable toStr base r b) = isPromptFile r"
  by (simp add: isPromptFileChatVariable_def isChatRequestFileEntry_def startsWith_def
      toChatVariable_def Let_def)

theorem isPromptFileChatVariable_toChatVariable_witness:
  "isPromptFileChatVariable
     (toChatVariable show_uri last_segment \<lparr> uri = uri_a, isPromptFile = True \<rparr> False)
   \<and> \<not> isPromptFileChatVariable
     (toChatVariable show_uri last_segment \<lparr> uri = uri_x, isPromptFile = False \<rparr> True)"
  using isPromptFileChatVariable_toChatVariable
          [of show_uri last_segment "\<lparr> uri = uri_a, isPromptFile = True \<rparr>" False]
        isPromptFileChatVariable_toChatVariable
          [of show_uri last_segment "\<lparr> uri = uri_x, isPromptFile = False \<rparr>" True]
  by simp

section \<open>Properties of the collection\<close>

subsection \<open>The variable-entry view\<close>

lemma root_entry_forced:
  "toChatVariable toStr base \<lparr> uri = uri r, isPromptFile = True \<rparr> True =
   toChatVariable toStr base (r\<lparr>isPromptFile := True\<rparr>) True"
  by (simp add: toChatVariable_def)

lemma root_entry_explicit:
  "toChatVariable toStr base (r\<lparr>isPromptFile := True\<rparr>) True =
   \<lparr> id_var = ''vscode.prompt.instructions.root__'' @ toStr (uri r),
     name = ''prompt:'' @ base (uri r), value_var = uri r, kind = ''file'',
     modelDescription = Some ''Prompt instructions file'' \<rparr>"
  by (simp add: toChatVariable_def createPromptVariableId_def Let_def)

lemma chatAttachments_loop_acc:
  "chatAttachments_loop toStr base objs hs acc =
   acc @ concat (map (\<lambda>h. handle_entries_spec toStr base (reference (objs h))) hs)"
  by (induction hs arbitrary: acc)
     (simp_all add: Let_def handle_entries_spec_def root_entry_forced)

text \<open>
  C1.  For every state of the collection, the \<open>chatAttachments\<close> view is the
  concatenation, over the live handles in insertion order, of each handle's
  entries: one non-root entry per node of its \<open>allValidReferences\<close>, in that
  array's order and with the node's own \<open>isPromptFile\<close>, followed by exactly one
  root entry for its top-level reference, which is the prompt-file entry whatever
  the top-level node's own flag is.  So in a collection whose map is
  \<open>pre @ (k, h) # post\<close>, the entries of \<open>pre\<close> come first, then the descendants of
  \<open>h\<close>, then the root entry of \<open>h\<close>, then the entries of \<open>post\<close>.
\<close>

theorem chatAttachments_entries:
  "chatAttachments toStr base s =
     concat (map (\<lambda>h. handle_entries_spec toStr base (reference (objects s h)))
                 (values_of (attachments s)))
   \<and> handle_entries_spec toStr base r =
       map (\<lambda>n. toChatVariable toStr base n False) (allValidReferences r)
       @ [\<lparr> id_var = ''vscode.prompt.instructions.root__'' @ toStr (uri r),
            name = ''prompt:'' @ base (uri r), value_var = uri r, kind = ''file'',
            modelDescription = Some ''Prompt instructions file'' \<rparr>]
   \<and> chatAttachments toStr base (s\<lparr>attachments := pre @ (k, h) # post\<rparr>) =
       chatAttachments toStr base (s\<lparr>attachments := pre\<rparr>)
       @ map (\<lambda>n. toChatVariable toStr base n False) (allValidReferences (reference (objects s h)))
       @ [toChatVariable toStr base \<lparr> uri = uri (reference (objects s h)), isPromptFile = True \<rparr> True]
       @ chatAttachments toStr base (s\<lparr>attachments := post\<rparr>)"
proof (intro conjI)
  show "chatAttachments toStr base s =
     concat (map (\<lambda>h. handle_entries_spec toStr base (reference (objects s h)))
                 (values_of (attachments s)))"
    by (simp add: chatAttachments_def chatAttachments_loop_acc)
  show "handle_entries_spec toStr base r =
       map (\<lambda>n. toChatVariable toStr base n False) (allValidReferences r)
       @ [\<lparr> id_var = ''vscode.prompt.instructions.root__'' @ toStr (uri r),
            name = ''prompt:'' @ base (uri r), value_var = uri r, kind = ''file'',
            modelDescription = Some ''Prompt instructions file'' \<rparr>]"
    by (simp add: handle_entries_spec_def root_entry_explicit)
  show "chatAttachments toStr base (s\<lparr>attachments := pre @ (k, h) # post\<rparr>) =
       chatAttachments toStr base (s\<lparr>attachments := pre\<rparr>)
       @ map (\<lambda>n. toChatVariable toStr base n False) (allValidReferences (reference (objects s h)))
       @ [toChatVariable toStr base \<lparr> uri = uri (reference (objects s h)), isPromptFile = True \<rparr> True]
       @ chatAttachments toStr base (s\<lparr>attachments := post\<rparr>)"
    by (simp add: chatAttachments_def chatAttachments_loop_acc values_of_def
        handle_entries_spec_def root_entry_forced)
qed

theorem chatAttachments_entries_witness:
  "chatAttachments show_uri last_segment scenario =
     [\<lparr> id_var = ''vscode.prompt.instructions.root__file:///a.prompt.md'',
        name = ''prompt:a.prompt.md'', value_var = uri_a, kind = ''file'',
        modelDescription = Some ''Prompt instructions file'' \<rparr>,
      \<lparr> id_var = ''file:///x.md'',
        name = ''file:x.md'', value_var = uri_x, kind = ''file'',
        modelDescription = None \<rparr>,
      \<lparr> id_var = ''vscode.prompt.instructions.root__file:///b.prompt.md'',
        name = ''prompt:b.prompt.md'', value_var = uri_b, kind = ''file'',
        modelDescription = Some ''Prompt instructions file'' \<rparr>]"
  using chatAttachments_entries
          [of show_uri last_segment scenario "reference handle_a" "[]" "''/a.prompt.md''" 0
              "[(''/b.prompt.md'', 1)]"]
        chatAttachments_entries
          [of show_uri last_segment scenario "reference handle_b" "[]" "''/a.prompt.md''" 0
              "[(''/b.prompt.md'', 1)]"]
  by (simp add: scenario_def handle_a_def handle_b_def values_of_def toChatVariable_def
      uri_a_def uri_b_def uri_x_def show_uri_def last_segment_def)


subsection \<open>\<open>add\<close>\<close>

lemma add_absent:
  assumes "\<not> has (path u) (attachments s)"
  shows "add newReference u s =
    (False,
     s\<lparr>attachments := attachments s @ [(path u, next_id s)],
       objects := (objects s)(next_id s :=
         \<lparr> reference = newReference u, allSettled_promise = Pending,
           onUpdateListeners = [ForwardUpdate],
           onDisposeListeners = [OnDisposeCallback (path u) (next_id s)],
           disposed = False \<rparr>),
       next_id := Suc (next_id s),
       trace := trace s @
         [OnUpdateSubscribed (next_id s), OnDisposeSubscribed (next_id s),
          MapSet (path u) (next_id s), HandleResolve (next_id s),
          FireAdd (next_id s), FireUpdate]\<rparr>)"
  using assms
  by (simp add: add_def createInstance_def handle_onUpdate_def handle_onDispose_def
      attachments_set_def store_set_def handle_resolve_def fire_onAdd_def fire_onUpdate_def)






text \<open>
  C5.  A call of \<open>add\<close> on a key that is not yet present performs its steps in
  this order and no other: the handle's update subscription, the handle's disposal
  subscription, the storing of the handle under its key, the call of the handle's
  \<open>resolve\<close>, the firing of the added event with the handle, the firing of the
  update event.  The update subscription is the collection's own update emitter,
  the disposal subscription is the callback closed over the key and the handle, and
  the handle is appended to the map.
\<close>

theorem add_order:
  "\<not> has (path u) (attachments s) \<Longrightarrow>
   trace (snd (add newReference u s)) = trace s @
     [OnUpdateSubscribed (next_id s), OnDisposeSubscribed (next_id s),
      MapSet (path u) (next_id s), HandleResolve (next_id s),
      FireAdd (next_id s), FireUpdate]
   \<and> fst (add newReference u s) = False
   \<and> onUpdateListeners (objects (snd (add newReference u s)) (next_id s)) = [ForwardUpdate]
   \<and> onDisposeListeners (objects (snd (add newReference u s)) (next_id s)) =
       [OnDisposeCallback (path u) (next_id s)]
   \<and> attachments (snd (add newReference u s)) = attachments s @ [(path u, next_id s)]"
  by (simp add: add_absent)

theorem add_order_witness:
  "\<not> has (path uri_x) (attachments scenario)
   \<and> trace (snd (add fresh_reference uri_x scenario)) =
       [OnUpdateSubscribed 2, OnDisposeSubscribed 2, MapSet ''/x.md'' 2, HandleResolve 2,
        FireAdd 2, FireUpdate]
   \<and> attachments (snd (add fresh_reference uri_x scenario)) =
       [(''/a.prompt.md'', 0), (''/b.prompt.md'', 1), (''/x.md'', 2)]"
proof -
  have absent: "\<not> has (path uri_x) (attachments scenario)"
    by (simp add: has_def scenario_def uri_x_def)
  show ?thesis
    using absent add_order [OF absent, of fresh_reference]
    by (simp add: scenario_def uri_x_def)
qed


subsection \<open>Disposal\<close>

lemma disposals_append: "disposals (xs @ ys) = disposals xs @ disposals ys"
  by (induction xs rule: disposals.induct) simp_all

lemma onDisposeCallback_eq:
  "onDisposeCallback k h s =
     s\<lparr>attachments := store_delete k (attachments s),
       trace := trace s @ [MapDeleteAndLeak k, FireUpdate, FireRemove h]\<rparr>"
  by (simp add: onDisposeCallback_def deleteAndLeak_def fire_onUpdate_def fire_onRemove_def)

lemma store_delete_absent: "\<not> has k m \<Longrightarrow> store_delete k m = m"
  by (force simp: has_def store_delete_def filter_id_conv)

lemma run_listener_objects: "objects (run_listener l s) = objects s"
  by (cases l) (simp_all add: fire_onUpdate_def onDisposeCallback_eq)

lemma run_listener_disposals: "disposals (trace (run_listener l s)) = disposals (trace s)"
  by (cases l) (simp_all add: fire_onUpdate_def onDisposeCallback_eq disposals_append)

lemma run_listener_attachments: "set (attachments (run_listener l s)) \<subseteq> set (attachments s)"
  by (cases l) (auto simp: fire_onUpdate_def onDisposeCallback_eq store_delete_def)

lemma run_listener_trace: "\<exists>rest. trace (run_listener l s) = trace s @ rest"
  by (cases l) (simp_all add: fire_onUpdate_def onDisposeCallback_eq)

lemma fold_run_listener_objects: "objects (fold run_listener ls s) = objects s"
  by (induction ls arbitrary: s) (simp_all add: run_listener_objects)

lemma fold_run_listener_disposals:
  "disposals (trace (fold run_listener ls s)) = disposals (trace s)"
  by (induction ls arbitrary: s) (simp_all add: run_listener_disposals)

lemma fold_run_listener_attachments:
  "set (attachments (fold run_listener ls s)) \<subseteq> set (attachments s)"
proof (induction ls arbitrary: s)
  case Nil
  show ?case by simp
next
  case (Cons l ls)
  have "set (attachments (fold run_listener ls (run_listener l s)))
          \<subseteq> set (attachments (run_listener l s))"
    by (rule Cons.IH)
  also have "\<dots> \<subseteq> set (attachments s)"
    by (rule run_listener_attachments)
  finally show ?case by simp
qed

lemma fold_run_listener_trace: "\<exists>rest. trace (fold run_listener ls s) = trace s @ rest"
proof (induction ls arbitrary: s)
  case Nil
  show ?case by simp
next
  case (Cons l ls)
  obtain r1 where r1: "trace (run_listener l s) = trace s @ r1"
    using run_listener_trace by blast
  obtain r2 where "trace (fold run_listener ls (run_listener l s)) = trace (run_listener l s) @ r2"
    using Cons.IH by blast
  with r1 have "trace (fold run_listener (l # ls) s) = trace s @ (r1 @ r2)"
    by simp
  then show ?case ..
qed

lemma handle_dispose_objects:
  "objects (handle_dispose h s) = (objects s)(h := (objects s h)\<lparr>disposed := True\<rparr>)"
  by (simp add: handle_dispose_def fold_run_listener_objects)

lemma handle_dispose_disposals:
  "disposals (trace (handle_dispose h s)) = disposals (trace s) @ [h]"
  by (simp add: handle_dispose_def fold_run_listener_disposals disposals_append)

lemma handle_dispose_attachments:
  "set (attachments (handle_dispose h s)) \<subseteq> set (attachments s)"
  using fold_run_listener_attachments
    [of "onDisposeListeners (objects s h)"
        "s\<lparr>objects := (objects s)(h := (objects s h)\<lparr>disposed := True\<rparr>),
           trace := trace s @ [HandleDispose h]\<rparr>"]
  by (simp add: handle_dispose_def)

lemma handle_dispose_trace:
  "\<exists>rest. trace (handle_dispose h s) = trace s @ [HandleDispose h] @ rest"
  using fold_run_listener_trace
    [of "onDisposeListeners (objects s h)"
        "s\<lparr>objects := (objects s)(h := (objects s h)\<lparr>disposed := True\<rparr>),
           trace := trace s @ [HandleDispose h]\<rparr>"]
  by (simp add: handle_dispose_def)

text \<open>
  C4.  The callback that \<open>add\<close> subscribes to a handle's disposal signal drops the
  entry of its key with \<open>deleteAndLeak\<close>, then fires the update event, then fires
  the removed event with the handle, and does nothing else: it disposes nothing
  (the disposals recorded in the trace and the object store are as before).  So
  when a handle wired by \<open>add\<close> disposes itself, the trace grows by that one
  disposal followed by the three steps of the callback, the handle is disposed
  once, and the map is as it was before the \<open>add\<close>.
\<close>

theorem onDispose_callback_leaks:
  "onDisposeCallback k h s =
     s\<lparr>attachments := store_delete k (attachments s),
       trace := trace s @ [MapDeleteAndLeak k, FireUpdate, FireRemove h]\<rparr>
   \<and> disposals (trace (onDisposeCallback k h s)) = disposals (trace s)
   \<and> objects (onDisposeCallback k h s) = objects s
   \<and> (\<not> has (path u) (attachments s) \<longrightarrow>
        onDisposeListeners (objects (snd (add newReference u s)) (next_id s)) =
          [OnDisposeCallback (path u) (next_id s)]
        \<and> trace (handle_dispose (next_id s) (snd (add newReference u s))) =
            trace (snd (add newReference u s)) @
            [HandleDispose (next_id s), MapDeleteAndLeak (path u), FireUpdate,
             FireRemove (next_id s)]
        \<and> disposals (trace (handle_dispose (next_id s) (snd (add newReference u s)))) =
            disposals (trace s) @ [next_id s]
        \<and> attachments (handle_dispose (next_id s) (snd (add newReference u s))) =
            attachments s)"
proof (intro conjI impI)
  show "onDisposeCallback k h s =
     s\<lparr>attachments := store_delete k (attachments s),
       trace := trace s @ [MapDeleteAndLeak k, FireUpdate, FireRemove h]\<rparr>"
    by (rule onDisposeCallback_eq)
  show "disposals (trace (onDisposeCallback k h s)) = disposals (trace s)"
    by (simp add: onDisposeCallback_eq disposals_append)
  show "objects (onDisposeCallback k h s) = objects s"
    by (simp add: onDisposeCallback_eq)
next
  assume a: "\<not> has (path u) (attachments s)"
  show "onDisposeListeners (objects (snd (add newReference u s)) (next_id s)) =
          [OnDisposeCallback (path u) (next_id s)]"
    using a by (simp add: add_absent)
  show "trace (handle_dispose (next_id s) (snd (add newReference u s))) =
            trace (snd (add newReference u s)) @
            [HandleDispose (next_id s), MapDeleteAndLeak (path u), FireUpdate,
             FireRemove (next_id s)]"
    using a by (simp add: add_absent handle_dispose_def onDisposeCallback_eq)
  show "disposals (trace (handle_dispose (next_id s) (snd (add newReference u s)))) =
            disposals (trace s) @ [next_id s]"
    using a by (simp add: handle_dispose_disposals) (simp add: add_absent disposals_append)
  show "attachments (handle_dispose (next_id s) (snd (add newReference u s))) = attachments s"
    using a
    by (simp add: add_absent handle_dispose_def onDisposeCallback_eq)
       (simp add: store_delete_def store_delete_absent [unfolded store_delete_def])
qed

theorem onDispose_callback_leaks_witness:
  "\<not> has (path uri_x) (attachments scenario)
   \<and> onDisposeCallback ''/a.prompt.md'' 0 scenario =
       scenario\<lparr>attachments := [(''/b.prompt.md'', 1)],
                trace := [MapDeleteAndLeak ''/a.prompt.md'', FireUpdate, FireRemove 0]\<rparr>
   \<and> trace (handle_dispose 2 (snd (add fresh_reference uri_x scenario))) =
       [OnUpdateSubscribed 2, OnDisposeSubscribed 2, MapSet ''/x.md'' 2, HandleResolve 2,
        FireAdd 2, FireUpdate,
        HandleDispose 2, MapDeleteAndLeak ''/x.md'', FireUpdate, FireRemove 2]
   \<and> disposals (trace (handle_dispose 2 (snd (add fresh_reference uri_x scenario)))) = [2]
   \<and> attachments (handle_dispose 2 (snd (add fresh_reference uri_x scenario))) =
       [(''/a.prompt.md'', 0), (''/b.prompt.md'', 1)]"
proof -
  have absent: "\<not> has (path uri_x) (attachments scenario)"
    by (simp add: has_def scenario_def uri_x_def)
  show ?thesis
    using absent
      onDispose_callback_leaks [of "''/a.prompt.md''" 0 scenario uri_x fresh_reference]
    by (simp add: add_absent) (simp add: scenario_def uri_x_def store_delete_def)
qed


subsection \<open>\<open>remove\<close>\<close>

text \<open>
  C9.  \<open>remove\<close> on a key that the collection does not hold returns the collection
  as it is: nothing is fired or traced and the map is unchanged.  On a key that
  holds the handle \<open>h\<close>, when \<open>remove\<close> returns the key is no longer in the map, \<open>h\<close>
  is disposed, the trace has grown by the eviction and the disposal of \<open>h\<close> (and
  by what the callbacks subscribed to that disposal did), exactly one disposal has
  been added to the trace, and no entry has been added to the map.
\<close>

theorem remove_absent_noop_present_disposes:
  "(\<not> has (path u) (attachments s) \<longrightarrow> remove u s = s)
   \<and> (map_of (attachments s) (path u) = Some h \<longrightarrow>
        \<not> has (path u) (attachments (remove u s))
        \<and> disposed (objects (remove u s) h)
        \<and> disposals (trace (remove u s)) = disposals (trace s) @ [h]
        \<and> (\<exists>rest. trace (remove u s) =
               trace s @ [MapDeleteAndDispose (path u), HandleDispose h] @ rest)
        \<and> set (attachments (remove u s)) \<subseteq> set (attachments s))"
proof (intro conjI impI)
  assume "\<not> has (path u) (attachments s)"
  then show "remove u s = s"
    by (simp add: remove_def)
next
  assume m: "map_of (attachments s) (path u) = Some h"
  define s1 where "s1 = s\<lparr>trace := trace s @ [MapDeleteAndDispose (path u)]\<rparr>"
  define s2 where "s2 = handle_dispose h s1"
  have present: "has (path u) (attachments s)"
    using m by (metis has_def map_of_eq_None_iff option.distinct(1) set_map)
  have rm: "remove u s = s2\<lparr>attachments := store_delete (path u) (attachments s2)\<rparr>"
    using present m by (simp add: remove_def deleteAndDispose_def s1_def s2_def Let_def)
  show "\<not> has (path u) (attachments (remove u s))"
    by (auto simp: rm has_def store_delete_def)
  show "disposed (objects (remove u s) h)"
    by (simp add: rm s2_def handle_dispose_objects)
  show "disposals (trace (remove u s)) = disposals (trace s) @ [h]"
    by (simp add: rm s2_def handle_dispose_disposals s1_def disposals_append)
  obtain rest where "trace s2 = trace s1 @ [HandleDispose h] @ rest"
    unfolding s2_def using handle_dispose_trace by blast
  then have "trace (remove u s) = trace s @ [MapDeleteAndDispose (path u), HandleDispose h] @ rest"
    by (simp add: rm s1_def)
  then show "\<exists>rest. trace (remove u s) =
               trace s @ [MapDeleteAndDispose (path u), HandleDispose h] @ rest" ..
  have "set (attachments s2) \<subseteq> set (attachments s)"
    using handle_dispose_attachments [of h s1] by (simp add: s2_def s1_def)
  then show "set (attachments (remove u s)) \<subseteq> set (attachments s)"
    by (auto simp: rm store_delete_def)
qed

theorem remove_absent_noop_present_disposes_witness:
  "\<not> has (path uri_x) (attachments scenario)
   \<and> remove uri_x scenario = scenario
   \<and> map_of (attachments scenario) (path uri_b) = Some 1
   \<and> attachments (remove uri_b scenario) = [(''/a.prompt.md'', 0)]
   \<and> disposed (objects (remove uri_b scenario) 1)
   \<and> disposals (trace (remove uri_b scenario)) = [1]
   \<and> trace (remove uri_b scenario) =
       [MapDeleteAndDispose ''/b.prompt.md'', HandleDispose 1,
        MapDeleteAndLeak ''/b.prompt.md'', FireUpdate, FireRemove 1]"
proof -
  have absent: "\<not> has (path uri_x) (attachments scenario)"
    by (simp add: has_def scenario_def uri_x_def)
  have present: "map_of (attachments scenario) (path uri_b) = Some 1"
    by (simp add: scenario_def uri_b_def)
  have b: "has (path uri_b) (attachments scenario)"
    by (simp add: has_def scenario_def uri_b_def)
  have run: "remove uri_b scenario =
      scenario\<lparr>attachments := [(''/a.prompt.md'', 0)],
               objects := (objects scenario)(1 := handle_b\<lparr>disposed := True\<rparr>),
               trace := [MapDeleteAndDispose ''/b.prompt.md'', HandleDispose 1,
                         MapDeleteAndLeak ''/b.prompt.md'', FireUpdate, FireRemove 1]\<rparr>"
    by (simp add: remove_def deleteAndDispose_def handle_dispose_def onDisposeCallback_eq
        Let_def scenario_def uri_b_def handle_b_def store_delete_def has_def)
  show ?thesis
    using absent present
      remove_absent_noop_present_disposes [of uri_x scenario 1]
      remove_absent_noop_present_disposes [of uri_b scenario 1]
    by (simp add: run)
qed


subsection \<open>\<open>allSettled\<close>\<close>

text \<open>
  C6.  \<open>allSettled()\<close> awaits the settle promises of exactly the handles that are
  in the map when it is called, in insertion order.  In whatever state the program
  is later, the promise it returned is not rejected, whatever the states of the
  handles' promises (a rejected one included); it is fulfilled exactly when none of
  the awaited promises is pending; and its state depends on the promises of the
  awaited handles only, so a handle added after the call is not waited on.
\<close>

theorem allSettled_snapshot_never_rejects:
  "allSettled s = map AllSettledOf (values_of (attachments s))
   \<and> allSettled_outcome (allSettled s) s' \<noteq> Rejected
   \<and> (allSettled_outcome (allSettled s) s' = Fulfilled \<longleftrightarrow>
        (\<forall>h \<in> set (values_of (attachments s)). allSettled_promise (objects s' h) \<noteq> Pending))
   \<and> ((\<forall>h \<in> set (values_of (attachments s)).
          allSettled_promise (objects s1 h) = allSettled_promise (objects s2 h)) \<longrightarrow>
        allSettled_outcome (allSettled s) s1 = allSettled_outcome (allSettled s) s2)"
proof (intro conjI impI)
  show "allSettled s = map AllSettledOf (values_of (attachments s))"
    by (simp add: allSettled_def)
  show "allSettled_outcome (allSettled s) s' \<noteq> Rejected"
    by (simp add: allSettled_outcome_def await_then_return_def Promise_allSettled_def)
  have "Pending \<in> (\<lambda>h. allSettled_promise (objects s' h)) ` set (values_of (attachments s))
          \<longleftrightarrow> (\<exists>h \<in> set (values_of (attachments s)). allSettled_promise (objects s' h) = Pending)"
    by force
  then show "allSettled_outcome (allSettled s) s' = Fulfilled \<longleftrightarrow>
        (\<forall>h \<in> set (values_of (attachments s)). allSettled_promise (objects s' h) \<noteq> Pending)"
    by (simp add: allSettled_outcome_def await_then_return_def Promise_allSettled_def
        allSettled_def image_image)
next
  assume "\<forall>h \<in> set (values_of (attachments s)).
          allSettled_promise (objects s1 h) = allSettled_promise (objects s2 h)"
  then have "map (promise_state_in s1) (allSettled s) = map (promise_state_in s2) (allSettled s)"
    by (simp add: allSettled_def)
  then show "allSettled_outcome (allSettled s) s1 = allSettled_outcome (allSettled s) s2"
    unfolding allSettled_outcome_def by (simp only:)
qed

theorem allSettled_snapshot_never_rejects_witness:
  "allSettled scenario = [AllSettledOf 0, AllSettledOf 1]
   \<and> values_of (attachments scenario_later) = [0, 1, 2]
   \<and> allSettled_promise (objects scenario_later 0) = Rejected
   \<and> allSettled_promise (objects scenario_later 1) = Fulfilled
   \<and> allSettled_promise (objects scenario_later 2) = Pending
   \<and> allSettled_promise (objects scenario_settled 0) = Rejected
   \<and> allSettled_promise (objects scenario_settled 1) = Fulfilled
   \<and> allSettled_outcome (allSettled scenario) scenario_later = Fulfilled
   \<and> allSettled_outcome (allSettled scenario) scenario_settled = Fulfilled
   \<and> allSettled_outcome (allSettled scenario) scenario = Pending"
proof -
  have absent: "\<not> has (path uri_x) (attachments scenario_settled)"
    by (simp add: has_def scenario_settled_def scenario_def uri_x_def)
  have later: "scenario_later =
      scenario_settled\<lparr>attachments := attachments scenario_settled @ [(''/x.md'', 2)],
        objects := (objects scenario_settled)(2 :=
          \<lparr> reference = fresh_reference uri_x, allSettled_promise = Pending,
            onUpdateListeners = [ForwardUpdate],
            onDisposeListeners = [OnDisposeCallback ''/x.md'' 2],
            disposed = False \<rparr>),
        next_id := 3,
        trace := [OnUpdateSubscribed 2, OnDisposeSubscribed 2, MapSet ''/x.md'' 2,
                  HandleResolve 2, FireAdd 2, FireUpdate]\<rparr>"
    using absent
    by (simp add: scenario_later_def add_absent)
       (simp add: scenario_settled_def scenario_def uri_x_def)
  have vals: "values_of (attachments scenario) = [0, 1]"
    by (simp add: values_of_def scenario_def)
  have snap: "allSettled scenario = [AllSettledOf 0, AllSettledOf 1]"
    by (simp add: allSettled_def vals)
  have vals_later: "values_of (attachments scenario_later) = [0, 1, 2]"
    by (simp add: later values_of_def scenario_settled_def scenario_def)
  have p0: "allSettled_promise (objects scenario_later 0) = Rejected"
    by (simp add: later) (simp add: scenario_settled_def handle_a_def)
  have p1: "allSettled_promise (objects scenario_later 1) = Fulfilled"
    by (simp add: later) (simp add: scenario_settled_def handle_b_def)
  have p2: "allSettled_promise (objects scenario_later 2) = Pending"
    by (simp add: later)
  have q0: "allSettled_promise (objects scenario_settled 0) = Rejected"
    by (simp add: scenario_settled_def handle_a_def)
  have q1: "allSettled_promise (objects scenario_settled 1) = Fulfilled"
    by (simp add: scenario_settled_def handle_b_def)
  have r0: "allSettled_promise (objects scenario 0) = Pending"
    by (simp add: scenario_def handle_a_def)
  have settled: "\<forall>h \<in> set (values_of (attachments scenario)).
        allSettled_promise (objects scenario_later h) \<noteq> Pending"
    using p0 p1 by (simp add: vals)
  have same: "\<forall>h \<in> set (values_of (attachments scenario)).
        allSettled_promise (objects scenario_later h) =
        allSettled_promise (objects scenario_settled h)"
    using p0 p1 q0 q1 by (simp add: vals)
  note at_later = allSettled_snapshot_never_rejects
                    [of scenario scenario_later scenario_later scenario_settled]
  have o1: "allSettled_outcome (allSettled scenario) scenario_later = Fulfilled"
    using at_later settled by blast
  have "allSettled_outcome (allSettled scenario) scenario_later =
        allSettled_outcome (allSettled scenario) scenario_settled"
    using at_later same by blast
  with o1 have o2: "allSettled_outcome (allSettled scenario) scenario_settled = Fulfilled"
    by simp
  have o3: "allSettled_outcome (allSettled scenario) scenario = Pending"
    using r0
    by (simp add: snap allSettled_outcome_def Promise_allSettled_def await_then_return_def)
  show ?thesis
    by (intro conjI) (rule snap vals_later p0 p1 p2 q0 q1 o1 o2 o3)+
qed

end
